theory Spec2Isabelle
  imports Complex_Main "HOL-Library.Word"
begin

section \<open>Arithmetic of the target\<close>

text \<open>
  The sketch runs on an AVR Arduino, where \<^verbatim>\<open>float\<close> and \<^verbatim>\<open>double\<close> are both IEEE binary32.
  A float is modelled by the real number it denotes, and every floating-point operation
  by the exact operation followed by \<open>fl32\<close>, rounding to the nearest binary32 value
  (ties to even, 24 bits of significand, gradual underflow below \<open>2 powi (-126)\<close>).
  Infinities and NaN are not modelled: the positions and speeds of the sketch stay far
  below \<open>2 powi 128\<close>.

  \<^verbatim>\<open>int\<close> and \<^verbatim>\<open>unsigned int\<close> have 16 bits on the target. The fields of a body hold
  mathematical integers; \<^verbatim>\<open>erase()\<close> and \<^verbatim>\<open>draw()\<close> compute with them as the code does:
  \<open>as_unsigned\<close> is the value of an expression of type \<^verbatim>\<open>unsigned int\<close> (an \<^verbatim>\<open>int\<close>
  operand is converted, the result is taken modulo \<open>2 ^ 16\<close>), and \<open>as_int\<close> the value of
  an expression of type \<^verbatim>\<open>int\<close> and of an argument converted to an \<^verbatim>\<open>int\<close> parameter.
  Signed overflow, undefined in C, wraps as the two's complement arithmetic of the
  target does. \<^verbatim>\<open>unsigned long\<close> milliseconds are 32-bit words, whose subtraction wraps.
\<close>

definition as_unsigned :: "int \<Rightarrow> int" where
  \<comment> \<open>the value of an expression of type \<^verbatim>\<open>unsigned int\<close>\<close>
  "as_unsigned v = v mod 65536"

definition as_int :: "int \<Rightarrow> int" where
  \<comment> \<open>conversion to a 16-bit \<^verbatim>\<open>int\<close> parameter\<close>
  "as_int v = (v + 32768) mod 65536 - 32768"

definition rne :: "real \<Rightarrow> int" where
  \<comment> \<open>round to the nearest integer, ties to the even one\<close>
  "rne v = (let f = \<lfloor>v\<rfloor>; d = v - of_int f
            in if d < 1/2 then f else if 1/2 < d then f + 1
               else if even f then f else f + 1)"

function expo_up :: "real \<Rightarrow> int \<Rightarrow> int" where
  "expo_up a e = (if 2 \<le> a then expo_up (a / 2) (e + 1) else e)"
  by pat_completeness auto
termination
  by (relation "measure (\<lambda>(a, e). nat \<lfloor>a\<rfloor>)") (auto simp: nat_less_iff, linarith)

function expo_down :: "real \<Rightarrow> int \<Rightarrow> int" where
  "expo_down a e = (if a < 1 \<and> -126 < e then expo_down (2 * a) (e - 1) else e)"
  by pat_completeness auto
termination
  by (relation "measure (\<lambda>(a, e). nat (e + 126))") auto

declare expo_up.simps [simp del] expo_down.simps [simp del]

definition expo :: "real \<Rightarrow> int" where
  \<comment> \<open>the binary exponent of a magnitude, not below that of the subnormal numbers\<close>
  "expo a = (if 1 \<le> a then expo_up a 0 else expo_down a 0)"

definition fl32 :: "real \<Rightarrow> real" where
  "fl32 v = (let q = 2 powi (expo \<bar>v\<bar> - 23) in of_int (rne (v / q)) * q)"

definition fadd :: "real \<Rightarrow> real \<Rightarrow> real" where
  "fadd a b = fl32 (a + b)"

definition fmul :: "real \<Rightarrow> real \<Rightarrow> real" where
  "fmul a b = fl32 (a * b)"

definition fdiv :: "real \<Rightarrow> real \<Rightarrow> real" where
  "fdiv a b = fl32 (a / b)"

definition float_of_int :: "int \<Rightarrow> real" where
  \<comment> \<open>conversion of an integer value to \<^verbatim>\<open>float\<close>\<close>
  "float_of_int k = fl32 (of_int k)"

definition float_to_int :: "real \<Rightarrow> int" where
  \<comment> \<open>conversion of a \<^verbatim>\<open>float\<close> to \<^verbatim>\<open>int\<close>: the fraction is discarded\<close>
  "float_to_int v = (if 0 \<le> v then \<lfloor>v\<rfloor> else \<lceil>v\<rceil>)"


section \<open>The collaborators of the sketch\<close>

text \<open>
  The display driver and the random source are libraries outside the sketch. The
  surface dimensions are parameters; a \<^verbatim>\<open>fillRect\<close> call is recorded with its five
  arguments as received; the random source is the sequence of raw values it will deliver.
\<close>

record surface =
  width :: int
  height :: int

datatype call = fillRect (rect_x: int) (rect_y: int) (rect_w: int) (rect_h: int) (rect_c: int)

definition tft_fillRect :: "int \<Rightarrow> int \<Rightarrow> int \<Rightarrow> int \<Rightarrow> int \<Rightarrow> call" where
  \<comment> \<open>Modelled from the spec: a call \<^verbatim>\<open>tft.fillRect(x, y, w, h, color)\<close> as the driver receives
      it, with the contract's parameter types \<^verbatim>\<open>x: int, y: int, w: unsigned, h: unsigned\<close>.\<close>
  "tft_fillRect ax ay aw ah c = fillRect (as_int ax) (as_int ay) (as_unsigned aw) (as_unsigned ah) c"

definition BLACK :: int where "BLACK = 0x0000"
definition WHITE :: int where "WHITE = 0xFFFF"
definition BACKGROUND :: int where "BACKGROUND = BLACK"

type_synonym rng = "nat \<Rightarrow> nat"

definition random_minmax :: "int \<Rightarrow> int \<Rightarrow> rng \<Rightarrow> int \<times> rng" where
  \<comment> \<open>Modelled from the spec: the random source, a uniform integer in a range. Arduino's
      \<^verbatim>\<open>random(min, max)\<close> returns \<^verbatim>\<open>min\<close> when the range is empty and otherwise
      \<^verbatim>\<open>min\<close> plus the next raw value modulo \<^verbatim>\<open>max - min\<close>, so \<^verbatim>\<open>max\<close> is excluded.\<close>
  "random_minmax howsmall howbig g =
     (if howbig \<le> howsmall then (howsmall, g)
      else (int (g 0 mod nat (howbig - howsmall)) + howsmall, \<lambda>n. g (Suc n)))"

definition covers :: "call \<Rightarrow> int \<times> int \<Rightarrow> bool" where
  \<comment> \<open>Modelled from the spec: \<^verbatim>\<open>fillRect(x, y, w, h, color)\<close> fills the rectangle of width
      \<^verbatim>\<open>w\<close> and height \<^verbatim>\<open>h\<close> whose top left pixel is \<^verbatim>\<open>(x, y)\<close> (clipped to the surface).\<close>
  "covers c p = (rect_x c \<le> fst p \<and> fst p < rect_x c + rect_w c \<and>
                 rect_y c \<le> snd p \<and> snd p < rect_y c + rect_h c)"

definition touched :: "call list \<Rightarrow> int \<times> int \<Rightarrow> bool" where
  "touched cs p = list_ex (\<lambda>c. covers c p) cs"


section \<open>class Ball\<close>

record Ball =
  x :: real
  y :: real
  dx :: real
  dy :: real
  ix :: int
  iy :: int
  ox :: int
  oy :: int
  radius :: int
  color :: int

definition Ball_ctor :: "surface \<Rightarrow> Ball \<Rightarrow> rng \<Rightarrow> Ball \<times> rng" where
  \<comment> \<open>\<^verbatim>\<open>Ball::Ball()\<close>. The second argument is the content of the allocated memory before
      the constructor runs: the constructor assigns six of the ten fields and leaves
      \<^verbatim>\<open>ix, iy, ox, oy\<close> as they were.\<close>
  "Ball_ctor tft mem g0 =
     (let (r, g1) = random_minmax 6 12 g0;
          (c, g2) = random_minmax BLACK WHITE g1;
          (px, g3) = random_minmax r (width tft - r) g2;
          (py, g4) = random_minmax r (height tft - r) g3;
          (vx, g5) = random_minmax 20 45 g4;
          (vy, g6) = random_minmax 20 45 g5
      in (mem\<lparr>radius := r, color := c,
              x := float_of_int px, y := float_of_int py,
              dx := fdiv (float_of_int vx) 10, dy := fdiv (float_of_int vy) 10\<rparr>, g6))"

definition bounce_walls :: "surface \<Rightarrow> Ball \<Rightarrow> rng \<Rightarrow> Ball \<times> rng" where
  \<comment> \<open>the first conditional of \<^verbatim>\<open>move()\<close>\<close>
  "bounce_walls tft b g =
     (if fadd (x b) (dx b) \<le> float_of_int (radius b)
         \<or> float_of_int (width tft - radius b) \<le> fadd (x b) (dx b)
      then (let (k, g') = random_minmax 20 45 g
            in (b\<lparr>dx := fmul (fdiv (float_of_int k) 10) (if 0 < dx b then -1 else 1)\<rparr>, g'))
      else (b, g))"

definition bounce_ground :: "surface \<Rightarrow> Ball \<Rightarrow> rng \<Rightarrow> Ball \<times> rng" where
  \<comment> \<open>the second conditional of \<^verbatim>\<open>move()\<close>: a new impulse at the ground, gravity elsewhere\<close>
  "bounce_ground tft b g =
     (if float_of_int (height tft - radius b) \<le> fadd (y b) (dy b)
      then (let (k, g') = random_minmax (-45) (-20) g
            in (b\<lparr>dy := fdiv (float_of_int k) 10\<rparr>, g'))
      else (b\<lparr>dy := fadd (dy b) (fl32 (5 / 100))\<rparr>, g))"

definition move :: "surface \<Rightarrow> Ball \<Rightarrow> rng \<Rightarrow> Ball \<times> rng" where
  "move tft b0 g0 =
     (let b1 = b0\<lparr>ox := ix b0, oy := iy b0\<rparr>;
          (b2, g2) = bounce_walls tft b1 g0;
          (b3, g3) = bounce_ground tft b2 g2;
          b4 = b3\<lparr>x := fadd (x b3) (dx b3)\<rparr>;
          b5 = b4\<lparr>y := fadd (y b4) (dy b4)\<rparr>
      in (b5\<lparr>ix := float_to_int (x b5), iy := float_to_int (y b5)\<rparr>, g3))"

definition erase :: "Ball \<Rightarrow> call list" where
  "erase b =
     (let mx = as_int (ix b - ox b);
          my = as_int (iy b - oy b)
      in (if 0 < mx
          then [tft_fillRect (as_unsigned (ox b - radius b)) (as_unsigned (oy b - radius b))
                  mx (as_unsigned (radius b * 2)) BACKGROUND]
          else if mx < 0
          then [tft_fillRect (as_unsigned (ox b + radius b + mx)) (as_unsigned (oy b - radius b))
                  (as_int (- mx)) (as_unsigned (radius b * 2)) BACKGROUND]
          else [])
       @ (if 0 < my
          then [tft_fillRect (as_unsigned (ox b - radius b)) (as_unsigned (oy b - radius b))
                  (as_unsigned (radius b * 2)) my BACKGROUND]
          else if my < 0
          then [tft_fillRect (as_unsigned (ox b - radius b)) (as_unsigned (oy b + radius b + my))
                  (as_unsigned (radius b * 2)) (as_int (- my)) BACKGROUND]
          else []))"

definition draw :: "Ball \<Rightarrow> call list" where
  "draw b = [tft_fillRect (as_unsigned (ix b - radius b)) (as_unsigned (iy b - radius b))
               (as_unsigned (radius b * 2)) (as_unsigned (radius b * 2)) (color b)]"

definition box :: "int \<Rightarrow> int \<Rightarrow> int \<Rightarrow> int \<times> int \<Rightarrow> bool" where
  \<comment> \<open>Modelled from the spec: the box of a body at a cell occupies
      \<^verbatim>\<open>[cell.x - radius, cell.x + radius) x [cell.y - radius, cell.y + radius)\<close>.\<close>
  "box cx cy r p = (cx - r \<le> fst p \<and> fst p < cx + r \<and> cy - r \<le> snd p \<and> snd p < cy + r)"

definition old_box :: "Ball \<Rightarrow> int \<times> int \<Rightarrow> bool" where
  "old_box b = box (ox b) (oy b) (radius b)"

definition new_box :: "Ball \<Rightarrow> int \<times> int \<Rightarrow> bool" where
  "new_box b = box (ix b) (iy b) (radius b)"

definition box_in_range :: "int \<Rightarrow> int \<Rightarrow> int \<Rightarrow> bool" where
  \<comment> \<open>the box at a cell has 16-bit coordinates\<close>
  "box_in_range cx cy r = (0 \<le> r \<and> - 32768 \<le> cx - r \<and> cx + r \<le> 32767
                                \<and> - 32768 \<le> cy - r \<and> cy + r \<le> 32767)"


section \<open>The sketch\<close>

record sketch =
  balls :: "Ball list"
  lastms :: "32 word"
  seed :: rng

fun move_all :: "surface \<Rightarrow> Ball list \<Rightarrow> rng \<Rightarrow> Ball list \<times> rng" where
  "move_all tft [] g = ([], g)"
| "move_all tft (b # bs) g =
     (let (b', g') = move tft b g;
          (bs', g'') = move_all tft bs g'
      in (b' # bs', g''))"

fun erase_all :: "Ball list \<Rightarrow> call list" where
  "erase_all [] = []"
| "erase_all (b # bs) = erase b @ erase_all bs"

fun draw_all :: "Ball list \<Rightarrow> call list" where
  "draw_all [] = []"
| "draw_all (b # bs) = draw b @ draw_all bs"

definition loop :: "surface \<Rightarrow> 32 word \<Rightarrow> sketch \<Rightarrow> sketch \<times> call list" where
  \<comment> \<open>\<^verbatim>\<open>loop()\<close>; the second argument is the value \<^verbatim>\<open>millis()\<close> returns. The result is the
      new state of the sketch and the \<^verbatim>\<open>fillRect\<close> calls issued, in order.\<close>
  "loop tft ms s =
     (if ms - lastms s \<le> 5 then (s, [])
      else (let s1 = s\<lparr>lastms := ms\<rparr>;
                (bs, g) = move_all tft (balls s1) (seed s1);
                s2 = s1\<lparr>balls := bs, seed := g\<rparr>
            in (s2, erase_all (balls s2) @ draw_all (balls s2))))"

fun moves :: "nat \<Rightarrow> surface \<Rightarrow> Ball \<Rightarrow> rng \<Rightarrow> Ball \<times> rng" where
  \<comment> \<open>\<^verbatim>\<open>move()\<close> called on one body in so many successive ticks\<close>
  "moves 0 tft b g = (b, g)"
| "moves (Suc n) tft b g = (case move tft b g of (b', g') \<Rightarrow> moves n tft b' g')"


section \<open>Concrete inputs\<close>

definition scenario_surface :: surface where
  "scenario_surface = \<lparr>width = 240, height = 320\<rparr>"

definition scenario_ball :: Ball where
  \<comment> \<open>the body of the end-to-end scenario, whose cell is the truncation of its position\<close>
  "scenario_ball = \<lparr>x = 50, y = 50, dx = 3, dy = 3, ix = 50, iy = 50, ox = 50, oy = 50,
                     radius = 10, color = 0x001F\<rparr>"

definition landscape :: surface where
  \<comment> \<open>the 320 x 240 surface that \<^verbatim>\<open>setRotation(3)\<close> leaves\<close>
  "landscape = \<lparr>width = 320, height = 240\<rparr>"

definition fresh_memory :: Ball where
  \<comment> \<open>a block of memory as the allocator may hand it out\<close>
  "fresh_memory = \<lparr>x = 0, y = 0, dx = 0, dy = 0, ix = 0, iy = 0, ox = 7, oy = 0,
                    radius = 0, color = 0\<rparr>"

definition zero_source :: rng where
  "zero_source = (\<lambda>n. 0)"

definition scenario_moved :: Ball where
  \<comment> \<open>the cells of the scenario after one step: from (50, 50) to (53, 53)\<close>
  "scenario_moved = scenario_ball\<lparr>ix := 53, iy := 53\<rparr>"

definition scenario_sketch :: sketch where
  "scenario_sketch = \<lparr>balls = [scenario_ball], lastms = 0, seed = zero_source\<rparr>"

definition at_right_wall :: Ball where
  \<comment> \<open>moving right, one step short of the right bound 230 of the scenario surface\<close>
  "at_right_wall = scenario_ball\<lparr>x := 228, ix := 228\<rparr>"

definition at_left_wall :: Ball where
  \<comment> \<open>moving left, one step short of the left bound 10\<close>
  "at_left_wall = scenario_ball\<lparr>x := 12, ix := 12, dx := - 3\<rparr>"

definition far_moved :: Ball where
  \<comment> \<open>a cell that moved by 30, more than the side of the box\<close>
  "far_moved = scenario_ball\<lparr>ix := 80, iy := 53\<rparr>"

definition overshoot_source :: rng where
  \<comment> \<open>raw values that make the constructor draw radius 6, position (100, 162) and
      speed (2.0, 4.4)\<close>
  "overshoot_source = (\<lambda>n. if n = 2 then 94 else if n = 3 then 156 else if n = 5 then 24 else 0)"

definition overshoot_start :: "Ball \<times> rng" where
  "overshoot_start = Ball_ctor landscape fresh_memory overshoot_source"

definition overshoot_before :: "Ball \<times> rng" where
  \<comment> \<open>the body so constructed, after its first 14 ticks\<close>
  "overshoot_before = moves 14 landscape (fst overshoot_start) (snd overshoot_start)"

definition edge_moved :: Ball where
  \<comment> \<open>a cell that moved by 3 at the upper end of the 16-bit range\<close>
  "edge_moved = scenario_ball\<lparr>ix := 32758, iy := 53, ox := 32761\<rparr>"

definition two_ball_sketch :: sketch where
  "two_ball_sketch = \<lparr>balls = [scenario_ball, at_left_wall], lastms = 0, seed = zero_source\<rparr>"





section \<open>Evaluation on concrete inputs\<close>

text \<open>
  The rounding function and the conversions of machine integers compute: on a closed
  term the simplifier evaluates them with these equations.
\<close>

lemmas float_eval = fadd_def fmul_def fdiv_def float_of_int_def float_to_int_def fl32_def
  expo_def expo_up.simps expo_down.simps rne_def Let_def

lemmas machine_eval = tft_fillRect_def as_int_def as_unsigned_def


section \<open>Machine integers\<close>

text \<open>
  Within their range the conversions are the identity; outside they differ from the
  value by a multiple of \<open>2 ^ 16\<close>. Two intervals that follow one another modulo
  \<open>2 ^ 16\<close>, both starting at a 16-bit coordinate and together no longer than
  \<open>2 ^ 16\<close>, have no point in common.
\<close>

lemma as_unsigned_id: "0 \<le> v \<Longrightarrow> v < 65536 \<Longrightarrow> as_unsigned v = v"
  by (simp add: as_unsigned_def)

lemma as_int_id: "- 32768 \<le> v \<Longrightarrow> v < 32768 \<Longrightarrow> as_int v = v"
  by (simp add: as_int_def)

lemma as_int_unsigned: "as_int (as_unsigned v) = as_int v"
  by (simp add: as_int_def as_unsigned_def mod_simps)

lemma as_int_unsigned_id: "- 32768 \<le> v \<Longrightarrow> v \<le> 32767 \<Longrightarrow> as_int (as_unsigned v) = v"
  by (simp add: as_int_unsigned as_int_id)

lemma as_unsigned_int: "as_unsigned (as_int v) = as_unsigned v"
  by (simp add: as_int_def as_unsigned_def mod_simps)

lemma as_int_range: "- 32768 \<le> as_int v \<and> as_int v \<le> 32767"
  unfolding as_int_def using pos_mod_bound[of 65536 "v + 32768"] pos_mod_sign[of 65536 "v + 32768"]
  by linarith

lemma as_unsigned_range: "0 \<le> as_unsigned v \<and> as_unsigned v \<le> 65535"
  unfolding as_unsigned_def using pos_mod_bound[of 65536 v] pos_mod_sign[of 65536 v]
  by linarith


lemma as_unsigned_cong: "\<exists>k. as_unsigned v = v + 65536 * k"
proof -
  have "as_unsigned v = v + 65536 * (- (v div 65536))"
    unfolding as_unsigned_def by (simp add: algebra_simps minus_div_mult_eq_mod [symmetric])
  then show ?thesis by blast
qed



lemma negated_distance:
  assumes "m = as_int v" and "m < 0"
  shows "as_unsigned (as_int (- m)) = - m"
proof -
  have "- 32768 \<le> m" using as_int_range[of v] assms(1) by simp
  then have "as_unsigned (- m) = - m" using assms(2) by (intro as_unsigned_id) linarith+
  then show ?thesis by (simp add: as_unsigned_int)
qed









section \<open>Rounding to binary32\<close>

lemma rne_of_int: "rne (of_int k) = k"
  by (simp add: rne_def)

lemma rne_mono: "u \<le> v \<Longrightarrow> rne u \<le> rne v"
proof -
  assume le: "u \<le> v"
  have fl: "\<lfloor>u\<rfloor> \<le> \<lfloor>v\<rfloor>" using le by (rule floor_mono)
  show ?thesis
  proof (cases "\<lfloor>u\<rfloor> = \<lfloor>v\<rfloor>")
    case True
    then show ?thesis using le unfolding rne_def Let_def by auto
  next
    case False
    then have "\<lfloor>u\<rfloor> + 1 \<le> \<lfloor>v\<rfloor>" using fl by simp
    moreover have "rne u \<le> \<lfloor>u\<rfloor> + 1" unfolding rne_def Let_def by auto
    moreover have "\<lfloor>v\<rfloor> \<le> rne v" unfolding rne_def Let_def by auto
    ultimately show ?thesis by linarith
  qed
qed

lemma expo_up_ge: "e \<le> expo_up a e"
proof (induction a e rule: expo_up.induct)
  case (1 a e)
  show ?case
  proof (cases "2 \<le> a")
    case True
    then have "expo_up a e = expo_up (a / 2) (e + 1)" by (subst expo_up.simps) simp
    then show ?thesis using "1.IH" True by simp
  next
    case False
    then have "expo_up a e = e" by (subst expo_up.simps) simp
    then show ?thesis by simp
  qed
qed

lemma expo_down_ge: "-126 \<le> e \<Longrightarrow> -126 \<le> expo_down a e"
proof (induction a e rule: expo_down.induct)
  case (1 a e)
  show ?case
  proof (cases "a < 1 \<and> -126 < e")
    case True
    then have "expo_down a e = expo_down (2 * a) (e - 1)" by (subst expo_down.simps) simp
    then show ?thesis using "1.IH" True by simp
  next
    case False
    then have "expo_down a e = e" by (subst expo_down.simps) auto
    then show ?thesis using "1.prems" by simp
  qed
qed


lemma expo_down_upper:
  "a < 1 \<Longrightarrow> a < 2 powi (expo_down a e - e + 1)"
proof (induction a e rule: expo_down.induct)
  case (1 a e)
  show ?case
  proof (cases "a < 1 \<and> -126 < e")
    case True
    have eq: "expo_down a e = expo_down (2 * a) (e - 1)"
      using True by (subst expo_down.simps) simp
    show ?thesis
    proof (cases "2 * a < 1")
      case t: True
      then have "2 * a < 2 powi (expo_down (2 * a) (e - 1) - (e - 1) + 1)"
        using "1.IH" True by simp
      moreover have "(2::real) powi (expo_down (2 * a) (e - 1) - (e - 1) + 1) = 2 * 2 powi (expo_down (2 * a) (e - 1) - e + 1)"
        by (simp add: power_int_diff power_int_add)
      ultimately show ?thesis unfolding eq by simp
    next
      case f: False
      then have "expo_down (2 * a) (e - 1) = e - 1" by (subst expo_down.simps) simp
      then show ?thesis unfolding eq using "1.prems" by simp
    qed
  next
    case False
    then have eq: "expo_down a e = e" by (subst expo_down.simps) auto
    show ?thesis unfolding eq using "1.prems" by simp
  qed
qed

lemma expo_ge: "-126 \<le> expo a"
  unfolding expo_def using expo_up_ge[of 0 a] expo_down_ge[of 0 a] by auto

lemma rne_minus: "rne (- v) = - rne v"
proof (cases "v \<in> \<int>")
  case True
  then obtain k where "v = of_int k" by (auto elim: Ints_cases)
  then have "- v = of_int (- k)" by simp
  then show ?thesis using rne_of_int \<open>v = of_int k\<close> by metis
next
  case False
  then have ne: "v \<noteq> of_int \<lfloor>v\<rfloor>" by (metis Ints_of_int)
  then have f: "\<lfloor>- v\<rfloor> = - \<lfloor>v\<rfloor> - 1"
    by (simp add: ceiling_altdef floor_minus)
  have lt: "of_int \<lfloor>v\<rfloor> < v" "v < of_int \<lfloor>v\<rfloor> + 1" using ne by linarith+
  show ?thesis unfolding rne_def Let_def f using lt by (auto split: if_splits)
qed

lemma rne_cases:
  "rne v = \<lfloor>v\<rfloor> \<and> v - of_int \<lfloor>v\<rfloor> \<le> 1/2 \<or> rne v = \<lfloor>v\<rfloor> + 1 \<and> 1/2 \<le> v - of_int \<lfloor>v\<rfloor>"
  unfolding rne_def Let_def by (cases "v - of_int \<lfloor>v\<rfloor> < 1/2") auto

lemma rne_bounds: "of_int (rne v) - 1/2 \<le> v \<and> v \<le> of_int (rne v) + 1/2"
proof -
  have a: "of_int \<lfloor>v\<rfloor> \<le> v" "v < of_int \<lfloor>v\<rfloor> + 1" by linarith+
  from rne_cases[of v] show ?thesis
  proof
    assume h: "rne v = \<lfloor>v\<rfloor> \<and> v - of_int \<lfloor>v\<rfloor> \<le> 1/2"
    then have e: "rne v = \<lfloor>v\<rfloor>" by simp
    show ?thesis unfolding e using a h by linarith
  next
    assume h: "rne v = \<lfloor>v\<rfloor> + 1 \<and> 1/2 \<le> v - of_int \<lfloor>v\<rfloor>"
    then have e: "of_int (rne v) = of_int \<lfloor>v\<rfloor> + (1::real)" by simp
    show ?thesis unfolding e using a h by linarith
  qed
qed

lemma pow2_step: "(2::real) powi (k + 1) = 2 * 2 powi k"
  by (simp add: power_int_add)

lemma pow2_pos: "0 < (2::real) powi k"
  by simp



lemma expo_up_bounds:
  "1 \<le> a \<Longrightarrow> 2 powi (expo_up a e - e) \<le> a \<and> a < 2 powi (expo_up a e - e + 1)"
proof (induction a e rule: expo_up.induct)
  case (1 a e)
  show ?case
  proof (cases "2 \<le> a")
    case True
    define n where "n = expo_up (a / 2) (e + 1) - (e + 1)"
    have ih: "2 powi n \<le> a / 2 \<and> a / 2 < 2 powi (n + 1)"
      using "1.IH" True unfolding n_def by simp
    have eq: "expo_up a e = expo_up (a / 2) (e + 1)"
      using True by (subst expo_up.simps) simp
    have m: "expo_up a e - e = n + 1" unfolding eq n_def by simp
    show ?thesis unfolding m using ih by (simp only: pow2_step) linarith
  next
    case False
    then have eq: "expo_up a e = e" by (subst expo_up.simps) simp
    show ?thesis unfolding eq using False "1.prems" by simp
  qed
qed

lemma expo_down_lower:
  "0 < a \<Longrightarrow> a < 1 \<Longrightarrow> -126 < expo_down a e \<Longrightarrow> 2 powi (expo_down a e - e) \<le> a"
proof (induction a e rule: expo_down.induct)
  case (1 a e)
  show ?case
  proof (cases "a < 1 \<and> -126 < e")
    case True
    have eq: "expo_down a e = expo_down (2 * a) (e - 1)"
      using True by (subst expo_down.simps) simp
    define n where "n = expo_down (2 * a) (e - 1) - e"
    have m: "expo_down (2 * a) (e - 1) - (e - 1) = n + 1" unfolding n_def by simp
    show ?thesis
    proof (cases "2 * a < 1")
      case t: True
      have "-126 < expo_down (2 * a) (e - 1)" using "1.prems"(3) unfolding eq .
      then have "2 powi (expo_down (2 * a) (e - 1) - (e - 1)) \<le> 2 * a"
        using "1.IH" True t "1.prems"(1) by simp
      then have "2 powi (n + 1) \<le> 2 * a" unfolding m .
      then show ?thesis unfolding eq n_def[symmetric] by (simp only: pow2_step)
    next
      case f: False
      then have "expo_down (2 * a) (e - 1) = e - 1" by (subst expo_down.simps) simp
      then show ?thesis unfolding eq using f by (simp add: power_int_minus)
    qed
  next
    case False
    then have eq: "expo_down a e = e" by (subst expo_down.simps) auto
    show ?thesis using False "1.prems" unfolding eq by auto
  qed
qed
lemma expo_upper: "a < 2 powi (expo a + 1)"
  unfolding expo_def using expo_up_bounds[of a 0] expo_down_upper[of a 0] by auto


lemma expo_lower: "0 < a \<Longrightarrow> -126 < expo a \<Longrightarrow> 2 powi (expo a) \<le> a"
  unfolding expo_def using expo_up_bounds[of a 0] expo_down_lower[of a 0] by (auto split: if_splits)

lemma expo_down_nonpos: "a \<le> 0 \<Longrightarrow> -126 \<le> e \<Longrightarrow> expo_down a e = -126"
proof (induction a e rule: expo_down.induct)
  case (1 a e)
  show ?case
  proof (cases "-126 < e")
    case True
    then have "expo_down a e = expo_down (2 * a) (e - 1)"
      using "1.prems" by (subst expo_down.simps) simp
    then show ?thesis using "1.IH" "1.prems" True by simp
  next
    case False
    then have "expo_down a e = e" by (subst expo_down.simps) simp
    then show ?thesis using False "1.prems" by simp
  qed
qed

lemma expo_nonpos: "a \<le> 0 \<Longrightarrow> expo a = -126"
  unfolding expo_def using expo_down_nonpos[of a 0] by simp

lemma expo_mono: "a \<le> b \<Longrightarrow> expo a \<le> expo b"
proof (rule ccontr)
  assume le: "a \<le> b" and "\<not> expo a \<le> expo b"
  then have lt: "expo b + 1 \<le> expo a" by simp
  then have big: "-126 < expo a" using expo_ge[of b] by linarith
  then have pos: "0 < a" using expo_nonpos[of a] by (cases "0 < a") auto
  have "2 powi (expo a) \<le> a" using expo_lower[OF pos big] .
  moreover have "b < 2 powi (expo b + 1)" by (rule expo_upper)
  moreover have "(2::real) powi (expo b + 1) \<le> 2 powi (expo a)"
    using lt by (intro power_int_increasing) auto
  ultimately show False using le by linarith
qed

lemma pow2_24: "(2::real) powi (k + 24) = 16777216 * 2 powi k"
  by (simp add: power_int_add)

lemma pow2_23: "(2::real) powi (k + 23) = 8388608 * 2 powi k"
  by (simp add: power_int_add)

lemma fl32_0: "fl32 0 = 0"
  by (simp add: fl32_def rne_def)

lemma fl32_minus: "fl32 (- v) = - fl32 v"
  by (simp add: fl32_def Let_def rne_minus)

lemma fl32_nonneg: "0 \<le> v \<Longrightarrow> 0 \<le> fl32 v"
proof -
  assume nn: "0 \<le> v"
  define q :: real where "q = 2 powi (expo \<bar>v\<bar> - 23)"
  have qpos: "0 < q" unfolding q_def by (rule pow2_pos)
  have "rne 0 \<le> rne (v / q)" using nn qpos by (intro rne_mono) simp
  then have "0 \<le> rne (v / q)" using rne_of_int[of 0] by simp
  then show ?thesis unfolding fl32_def Let_def q_def[symmetric] using qpos by simp
qed

lemma fl32_upper: "0 \<le> v \<Longrightarrow> fl32 v \<le> 2 powi (expo v + 1)"
proof -
  assume nn: "0 \<le> v"
  define q :: real where "q = 2 powi (expo v - 23)"
  have qpos: "0 < q" unfolding q_def by (rule pow2_pos)
  have "expo v + 1 = (expo v - 23) + 24" by simp
  then have p: "2 powi (expo v + 1) = 16777216 * q"
    unfolding q_def by (simp only: pow2_24)
  have "v < 16777216 * q" using expo_upper[of v] unfolding p .
  then have "v / q \<le> of_int 16777216" using qpos by (simp add: field_simps)
  then have "rne (v / q) \<le> rne (of_int 16777216)" by (rule rne_mono)
  then have "rne (v / q) \<le> 16777216" unfolding rne_of_int .
  then have "of_int (rne (v / q)) * q \<le> 16777216 * q" using qpos by simp
  then show ?thesis unfolding fl32_def Let_def p using nn q_def by simp
qed

lemma fl32_lower: "0 < v \<Longrightarrow> -126 < expo v \<Longrightarrow> 2 powi (expo v) \<le> fl32 v"
proof -
  assume pos: "0 < v" and big: "-126 < expo v"
  define q :: real where "q = 2 powi (expo v - 23)"
  have qpos: "0 < q" unfolding q_def by (rule pow2_pos)
  have p: "2 powi (expo v) = 8388608 * q"
    unfolding q_def using pow2_23[of "expo v - 23"] by simp
  have "8388608 * q \<le> v" using expo_lower[OF pos big] unfolding p .
  then have "of_int 8388608 \<le> v / q" using qpos by (simp add: field_simps)
  then have "rne (of_int 8388608) \<le> rne (v / q)" by (rule rne_mono)
  then have "8388608 \<le> rne (v / q)" unfolding rne_of_int .
  then have "8388608 * q \<le> of_int (rne (v / q)) * q" using qpos by simp
  then show ?thesis unfolding fl32_def Let_def p using pos q_def by simp
qed

lemma fl32_mono_nonneg: "0 \<le> u \<Longrightarrow> u \<le> v \<Longrightarrow> fl32 u \<le> fl32 v"
proof -
  assume nn: "0 \<le> u" and le: "u \<le> v"
  have em: "expo u \<le> expo v" using le by (rule expo_mono)
  show ?thesis
  proof (cases "expo u = expo v")
    case True
    define q :: real where "q = 2 powi (expo v - 23)"
    have qpos: "0 < q" unfolding q_def by (rule pow2_pos)
    have "rne (u / q) \<le> rne (v / q)" using le qpos by (intro rne_mono) (simp add: field_simps)
    then have "of_int (rne (u / q)) * q \<le> of_int (rne (v / q)) * q" using qpos by simp
    then show ?thesis unfolding fl32_def Let_def using nn le True q_def by simp
  next
    case False
    then have lt: "expo u + 1 \<le> expo v" using em by simp
    then have big: "-126 < expo v" using expo_ge[of u] by linarith
    then have pos: "0 < v" using expo_nonpos[of v] by (cases "0 < v") auto
    have "fl32 u \<le> 2 powi (expo u + 1)" using nn by (rule fl32_upper)
    also have "\<dots> \<le> 2 powi (expo v)" using lt by (intro power_int_increasing) auto
    also have "\<dots> \<le> fl32 v" using pos big by (rule fl32_lower)
    finally show ?thesis .
  qed
qed

lemma fl32_mono: "u \<le> v \<Longrightarrow> fl32 u \<le> fl32 v"
proof -
  assume le: "u \<le> v"
  consider "0 \<le> u" | "v \<le> 0" | "u < 0" "0 < v" by linarith
  then show ?thesis
  proof cases
    case 1
    then show ?thesis using le by (rule fl32_mono_nonneg)
  next
    case 2
    then have "fl32 (- v) \<le> fl32 (- u)" using le by (intro fl32_mono_nonneg) auto
    then show ?thesis unfolding fl32_minus by simp
  next
    case 3
    have "0 \<le> fl32 (- u)" using 3 by (intro fl32_nonneg) simp
    then have "fl32 u \<le> 0" unfolding fl32_minus by simp
    moreover have "0 \<le> fl32 v" using 3 by (intro fl32_nonneg) simp
    ultimately show ?thesis by linarith
  qed
qed

lemma fl32_error: "\<bar>fl32 v - v\<bar> \<le> 2 powi (expo \<bar>v\<bar> - 24)"
proof -
  define q :: real where "q = 2 powi (expo \<bar>v\<bar> - 24)"
  have qpos: "0 < q" unfolding q_def by (rule pow2_pos)
  have p: "2 powi (expo \<bar>v\<bar> - 23) = 2 * q"
    unfolding q_def using pow2_step[of "expo \<bar>v\<bar> - 24"] by simp
  define n where "n = rne (v / (2 * q))"
  have b: "of_int n - 1/2 \<le> v / (2 * q) \<and> v / (2 * q) \<le> of_int n + 1/2"
    unfolding n_def by (rule rne_bounds)
  then have "of_int n * (2 * q) - q \<le> v \<and> v \<le> of_int n * (2 * q) + q"
    using qpos by (simp add: field_simps)
  then have "\<bar>of_int n * (2 * q) - v\<bar> \<le> q" by linarith
  then show ?thesis unfolding fl32_def Let_def p n_def q_def[symmetric] .
qed

lemma fl32_exact:
  assumes m: "\<bar>m\<bar> < 16777216" and j: "-149 \<le> j"
  shows "fl32 (of_int m * 2 powi j) = of_int m * 2 powi j"
proof (cases "m = 0")
  case True
  then show ?thesis by (simp add: fl32_0)
next
  case False
  define v :: real where "v = of_int m * 2 powi j"
  define e where "e = expo \<bar>v\<bar>"
  have apos: "0 < \<bar>v\<bar>" unfolding v_def using False by (simp add: pow2_pos less_le)
  have alt: "\<bar>v\<bar> < 2 powi (j + 24)"
  proof -
    have "\<bar>v\<bar> = of_int \<bar>m\<bar> * 2 powi j" unfolding v_def by (simp add: abs_mult)
    moreover have "of_int \<bar>m\<bar> < (16777216::real)" using m by linarith
    ultimately show ?thesis unfolding pow2_24 using pow2_pos[of j] by simp
  qed
  have ele: "e \<le> j + 23"
  proof (cases "-126 < e")
    case True
    then have "2 powi e \<le> \<bar>v\<bar>" unfolding e_def using apos by (intro expo_lower)
    then have lt: "(2::real) powi e < 2 powi (j + 24)" using alt by linarith
    have "e < j + 24"
    proof (rule ccontr)
      assume "\<not> e < j + 24"
      then have "(2::real) powi (j + 24) \<le> 2 powi e" by (intro power_int_increasing) auto
      then show False using lt by linarith
    qed
    then show ?thesis by simp
  next
    case False
    then show ?thesis using j by linarith
  qed
  define n where "n = nat (j + 23 - e)"
  have je: "j = (e - 23) + int n" unfolding n_def using ele by simp
  have pj: "2 powi j = 2 powi (e - 23) * (2::real) ^ n"
    by (subst je) (simp add: power_int_add)
  then have "v / 2 powi (e - 23) = of_int (m * 2 ^ n)"
    unfolding v_def using pow2_pos[of "e - 23"] by simp
  then have r: "rne (v / 2 powi (e - 23)) = m * 2 ^ n" by (simp only: rne_of_int)
  have "fl32 v = of_int (m * 2 ^ n) * 2 powi (e - 23)"
    unfolding fl32_def Let_def e_def[symmetric] r ..
  also have "\<dots> = v" unfolding v_def pj by simp
  finally show ?thesis unfolding v_def .
qed

lemma fl32_of_int: "\<bar>k\<bar> < 16777216 \<Longrightarrow> fl32 (of_int k) = of_int k"
  using fl32_exact[of k 0] by simp

lemma float_of_int_exact: "\<bar>k\<bar> < 16777216 \<Longrightarrow> float_of_int k = of_int k"
  unfolding float_of_int_def by (rule fl32_of_int)

lemma fl32_le_int: "v \<le> of_int k \<Longrightarrow> \<bar>k\<bar> < 16777216 \<Longrightarrow> fl32 v \<le> of_int k"
  using fl32_mono[of v "of_int k"] fl32_of_int[of k] by simp

lemma fl32_ge_int: "of_int k \<le> v \<Longrightarrow> \<bar>k\<bar> < 16777216 \<Longrightarrow> of_int k \<le> fl32 v"
  using fl32_mono[of "of_int k" v] fl32_of_int[of k] by simp

lemma expo_le: 
  assumes "a < 2 powi (n + 1)" and "-126 \<le> n"
  shows "expo a \<le> n"
proof (rule ccontr)
  assume "\<not> expo a \<le> n"
  then have gt: "n + 1 \<le> expo a" by simp
  then have big: "-126 < expo a" using assms(2) by linarith
  then have pos: "0 < a" using expo_nonpos[of a] by (cases "0 < a") auto
  have "2 powi (expo a) \<le> a" using expo_lower[OF pos big] .
  moreover have "(2::real) powi (n + 1) \<le> 2 powi (expo a)"
    using gt by (intro power_int_increasing) auto
  ultimately show False using assms(1) by linarith
qed

lemma gravity_value: "fl32 (5 / 100) = 13421773 / 268435456"
  by (simp add: float_eval)

lemma fl32_sixteenth:
  assumes "0 \<le> k" and "k \<le> 32767"
  shows "fl32 (of_int k + 1 / 16) = of_int k + 1 / 16"
proof -
  have e: "fl32 (of_int (16 * k + 1) * 2 powi (- 4)) = of_int (16 * k + 1) * 2 powi (- 4)"
    using assms by (intro fl32_exact) linarith+
  have v: "of_int (16 * k + 1) * 2 powi (- 4) = (of_int k + 1 / 16 :: real)"
    by (simp add: field_simps)
  show ?thesis using e unfolding v .
qed

lemma fl32_error_small:
  assumes "\<bar>v\<bar> < 2048"
  shows "\<bar>fl32 v - v\<bar> \<le> 1 / 16384"
proof -
  have "\<bar>v\<bar> < 2 powi (10 + 1)" using assms by simp
  then have "expo \<bar>v\<bar> \<le> 10" by (rule expo_le) simp
  then have "(2::real) powi (expo \<bar>v\<bar> - 24) \<le> 2 powi (10 - 24)"
    by (intro power_int_increasing) auto
  then have "(2::real) powi (expo \<bar>v\<bar> - 24) \<le> 1 / 16384" by simp
  then show ?thesis using fl32_error[of v] by linarith
qed

lemma fl32_2: "fl32 2 = 2"
  using fl32_of_int[of 2] by simp

lemma fl32_5: "fl32 5 = 5"
  using fl32_of_int[of 5] by simp

lemma fl32_keeps_range:
  "2 \<le> v \<Longrightarrow> v \<le> 5 \<Longrightarrow> 2 \<le> fl32 v \<and> fl32 v \<le> 5"
  using fl32_mono[of 2 v] fl32_mono[of v 5] by (simp add: fl32_2 fl32_5)

lemma wall_speed:
  assumes "20 \<le> k" and "k < 45"
  shows "2 \<le> fdiv (float_of_int k) 10 \<and> fdiv (float_of_int k) 10 \<le> 5"
proof -
  have e: "float_of_int k = of_int k" using assms by (intro float_of_int_exact) linarith
  have "(20::real) \<le> of_int k" "of_int k \<le> (45::real)" using assms by linarith+
  then have "(2::real) \<le> of_int k / 10 \<and> of_int k / 10 \<le> (5::real)" by linarith
  then show ?thesis unfolding fdiv_def e using fl32_keeps_range by blast
qed

lemma ground_speed:
  assumes "-45 \<le> k" and "k < -20"
  shows "-5 \<le> fdiv (float_of_int k) 10 \<and> fdiv (float_of_int k) 10 \<le> -2"
proof -
  have e: "float_of_int k = of_int k" using assms by (intro float_of_int_exact) linarith
  have "(-45::real) \<le> of_int k" "of_int k \<le> (-20::real)" using assms by linarith+
  then have "(2::real) \<le> - (of_int k / 10) \<and> - (of_int k / 10) \<le> (5::real)" by linarith
  then have "2 \<le> fl32 (- (of_int k / 10)) \<and> fl32 (- (of_int k / 10)) \<le> 5"
    by (intro fl32_keeps_range) simp_all
  then show ?thesis unfolding fdiv_def e fl32_minus by linarith
qed


section \<open>Basic facts about the sketch\<close>

lemma random_minmax_range:
  "lo < hi \<Longrightarrow> lo \<le> fst (random_minmax lo hi g) \<and> fst (random_minmax lo hi g) < hi"
proof -
  assume lt: "lo < hi"
  have "g 0 mod nat (hi - lo) < nat (hi - lo)" using lt by simp
  then have "int (g 0 mod nat (hi - lo)) < int (nat (hi - lo))" by (simp only: of_nat_less_iff)
  then have "int (g 0 mod nat (hi - lo)) < hi - lo" using lt by simp
  then show ?thesis using lt by (simp add: random_minmax_def)
qed


lemma erase_in_range:
  assumes o_box: "box_in_range (ox b) (oy b) (radius b)"
    and i_box: "box_in_range (ix b) (iy b) (radius b)"
    and mx: "\<bar>ix b - ox b\<bar> \<le> 32767" and my: "\<bar>iy b - oy b\<bar> \<le> 32767"
  shows "erase b =
     (if 0 < ix b - ox b
      then [fillRect (ox b - radius b) (oy b - radius b) (ix b - ox b) (radius b * 2) BACKGROUND]
      else if ix b - ox b < 0
      then [fillRect (ix b + radius b) (oy b - radius b) (ox b - ix b) (radius b * 2) BACKGROUND]
      else [])
   @ (if 0 < iy b - oy b
      then [fillRect (ox b - radius b) (oy b - radius b) (radius b * 2) (iy b - oy b) BACKGROUND]
      else if iy b - oy b < 0
      then [fillRect (ox b - radius b) (iy b + radius b) (radius b * 2) (oy b - iy b) BACKGROUND]
      else [])"
proof -
  have emx: "as_int (ix b - ox b) = ix b - ox b" using mx by (intro as_int_id) linarith+
  have emy: "as_int (iy b - oy b) = iy b - oy b" using my by (intro as_int_id) linarith+
  have r2: "as_unsigned (as_unsigned (radius b * 2)) = radius b * 2"
  proof -
    have "as_unsigned (radius b * 2) = radius b * 2"
      using o_box unfolding box_in_range_def by (intro as_unsigned_id) linarith+
    then show ?thesis using o_box unfolding box_in_range_def by (simp add: as_unsigned_id)
  qed
  have x1: "as_int (as_unsigned (ox b - radius b)) = ox b - radius b"
    using o_box unfolding box_in_range_def by (intro as_int_unsigned_id) linarith+
  have y1: "as_int (as_unsigned (oy b - radius b)) = oy b - radius b"
    using o_box unfolding box_in_range_def by (intro as_int_unsigned_id) linarith+
  have sx: "ox b + radius b + (ix b - ox b) = ix b + radius b" by simp
  have sy: "oy b + radius b + (iy b - oy b) = iy b + radius b" by simp
  have x2: "as_int (as_unsigned (ox b + radius b + (ix b - ox b))) = ix b + radius b"
    unfolding sx using i_box unfolding box_in_range_def by (intro as_int_unsigned_id) linarith+
  have y2: "as_int (as_unsigned (oy b + radius b + (iy b - oy b))) = iy b + radius b"
    unfolding sy using i_box unfolding box_in_range_def by (intro as_int_unsigned_id) linarith+
  have wp: "0 < ix b - ox b \<Longrightarrow> as_unsigned (ix b - ox b) = ix b - ox b"
    using mx by (intro as_unsigned_id) linarith+
  have hp: "0 < iy b - oy b \<Longrightarrow> as_unsigned (iy b - oy b) = iy b - oy b"
    using my by (intro as_unsigned_id) linarith+
  have wn: "ix b - ox b < 0 \<Longrightarrow> as_unsigned (as_int (- (ix b - ox b))) = ox b - ix b"
    using negated_distance[OF emx[symmetric]] by simp
  have hn: "iy b - oy b < 0 \<Longrightarrow> as_unsigned (as_int (- (iy b - oy b))) = oy b - iy b"
    using negated_distance[OF emy[symmetric]] by simp
  show ?thesis
    unfolding erase_def Let_def emx emy tft_fillRect_def r2 x1 y1 x2 y2
    using wp hp wn hn by simp
qed

lemma draw_in_range:
  assumes "box_in_range (ix b) (iy b) (radius b)"
  shows "draw b = [fillRect (ix b - radius b) (iy b - radius b) (radius b * 2) (radius b * 2)
                     (color b)]"
proof -
  have "as_unsigned (radius b * 2) = radius b * 2"
    using assms unfolding box_in_range_def by (intro as_unsigned_id) linarith+
  then have r2: "as_unsigned (as_unsigned (radius b * 2)) = radius b * 2"
    using assms unfolding box_in_range_def by (simp add: as_unsigned_id)
  have x1: "as_int (as_unsigned (ix b - radius b)) = ix b - radius b"
    using assms unfolding box_in_range_def by (intro as_int_unsigned_id) linarith+
  have y1: "as_int (as_unsigned (iy b - radius b)) = iy b - radius b"
    using assms unfolding box_in_range_def by (intro as_int_unsigned_id) linarith+
  show ?thesis unfolding draw_def tft_fillRect_def r2 x1 y1 ..
qed




lemma erase_all_concat: "erase_all bs = concat (map erase bs)"
  by (induction bs) simp_all

lemma draw_all_concat: "draw_all bs = concat (map draw bs)"
  by (induction bs) simp_all

lemma move_all_length: "length (fst (move_all tft bs g)) = length bs"
  by (induction bs arbitrary: g) (simp_all add: split_beta Let_def)

lemma move_all_seed:
  "snd (move_all tft bs g) = foldl (\<lambda>h b. snd (move tft b h)) g bs"
  by (induction bs arbitrary: g) (simp_all add: split_beta Let_def)

lemma move_all_nth:
  "i < length bs \<Longrightarrow>
   fst (move_all tft bs g) ! i
     = fst (move tft (bs ! i) (foldl (\<lambda>h b. snd (move tft b h)) g (take i bs)))"
proof (induction bs arbitrary: g i)
  case Nil
  then show ?case by simp
next
  case (Cons b bs)
  show ?case
  proof (cases i)
    case 0
    then show ?thesis by (simp add: split_beta Let_def)
  next
    case (Suc k)
    then have "k < length bs" using Cons.prems by simp
    then show ?thesis using Cons.IH[of k "snd (move tft b g)"] Suc
      by (simp add: split_beta Let_def)
  qed
qed

lemma loop_gated: "ms - lastms s \<le> 5 \<Longrightarrow> loop tft ms s = (s, [])"
  by (simp add: loop_def)

lemma loop_lastms: "\<not> ms - lastms s \<le> 5 \<Longrightarrow> lastms (fst (loop tft ms s)) = ms"
  by (simp add: loop_def split_beta Let_def)

lemma Ball_ctor_cells:
  "ix (fst (Ball_ctor tft mem g)) = ix mem \<and> iy (fst (Ball_ctor tft mem g)) = iy mem
   \<and> ox (fst (Ball_ctor tft mem g)) = ox mem \<and> oy (fst (Ball_ctor tft mem g)) = oy mem"
  by (simp add: Ball_ctor_def split_beta Let_def)



lemma Ball_ctor_inside:
  assumes "23 \<le> width tft" and "width tft < 16777216"
  shows "6 \<le> radius (fst (Ball_ctor tft mem g)) \<and> radius (fst (Ball_ctor tft mem g)) \<le> 11
       \<and> of_int (radius (fst (Ball_ctor tft mem g))) \<le> x (fst (Ball_ctor tft mem g))
       \<and> x (fst (Ball_ctor tft mem g))
           \<le> of_int (width tft - radius (fst (Ball_ctor tft mem g)))
       \<and> 2 \<le> dx (fst (Ball_ctor tft mem g)) \<and> dx (fst (Ball_ctor tft mem g)) \<le> 5"
proof -
  define r where "r = fst (random_minmax 6 12 g)"
  define g2 where "g2 = snd (random_minmax BLACK WHITE (snd (random_minmax 6 12 g)))"
  define px where "px = fst (random_minmax r (width tft - r) g2)"
  define g4 where "g4 = snd (random_minmax r (height tft - r) (snd (random_minmax r (width tft - r) g2)))"
  define vx where "vx = fst (random_minmax 20 45 g4)"
  have rb: "6 \<le> r \<and> r < 12" unfolding r_def by (intro random_minmax_range) simp
  then have "r < width tft - r" using assms(1) by linarith
  then have pb: "r \<le> px \<and> px < width tft - r" unfolding px_def by (rule random_minmax_range)
  have vb: "20 \<le> vx \<and> vx < 45" unfolding vx_def by (intro random_minmax_range) simp
  have fr: "radius (fst (Ball_ctor tft mem g)) = r"
    by (simp add: Ball_ctor_def split_beta Let_def r_def)
  have fx: "x (fst (Ball_ctor tft mem g)) = float_of_int px"
    by (simp add: Ball_ctor_def split_beta Let_def r_def px_def g2_def)
  have fd: "dx (fst (Ball_ctor tft mem g)) = fdiv (float_of_int vx) 10"
    by (simp add: Ball_ctor_def split_beta Let_def r_def vx_def g4_def g2_def)
  have ex: "float_of_int px = of_int px"
    using pb rb assms(2) by (intro float_of_int_exact) linarith
  have "2 \<le> fdiv (float_of_int vx) 10 \<and> fdiv (float_of_int vx) 10 \<le> 5"
    using vb by (intro wall_speed) simp_all
  then show ?thesis unfolding fr fx fd ex using rb pb by simp
qed

lemma move_dx:
  "dx (fst (move tft b g)) =
     (if fadd (x b) (dx b) \<le> float_of_int (radius b)
         \<or> float_of_int (width tft - radius b) \<le> fadd (x b) (dx b)
      then fmul (fdiv (float_of_int (fst (random_minmax 20 45 g))) 10) (if 0 < dx b then -1 else 1)
      else dx b)"
  by (simp add: move_def bounce_walls_def bounce_ground_def split_beta Let_def)

lemma move_x: "x (fst (move tft b g)) = fadd (x b) (dx (fst (move tft b g)))"
  by (simp add: move_def bounce_walls_def bounce_ground_def split_beta Let_def)

lemma move_dy:
  "dy (fst (move tft b g)) =
     (if float_of_int (height tft - radius b) \<le> fadd (y b) (dy b)
      then fdiv (float_of_int (fst (random_minmax (-45) (-20)
                   (snd (bounce_walls tft (b\<lparr>ox := ix b, oy := iy b\<rparr>) g))))) 10
      else fadd (dy b) (fl32 (5 / 100)))"
  by (simp add: move_def bounce_walls_def bounce_ground_def split_beta Let_def)

lemma move_y: "y (fst (move tft b g)) = fadd (y b) (dy (fst (move tft b g)))"
  by (simp add: move_def bounce_walls_def bounce_ground_def split_beta Let_def)

lemma move_cells:
  "ix (fst (move tft b g)) = float_to_int (x (fst (move tft b g)))"
  "iy (fst (move tft b g)) = float_to_int (y (fst (move tft b g)))"
  "ox (fst (move tft b g)) = ix b"
  "oy (fst (move tft b g)) = iy b"
  by (simp_all add: move_def bounce_walls_def bounce_ground_def split_beta Let_def)

lemma move_airborne:
  assumes "\<not> (fadd (x b) (dx b) \<le> float_of_int (radius b)
             \<or> float_of_int (width tft - radius b) \<le> fadd (x b) (dx b))"
    and "\<not> float_of_int (height tft - radius b) \<le> fadd (y b) (dy b)"
  shows "move tft b g =
    (b\<lparr>ox := ix b, oy := iy b,
       dy := fadd (dy b) (fl32 (5 / 100)),
       x := fadd (x b) (dx b),
       y := fadd (y b) (fadd (dy b) (fl32 (5 / 100))),
       ix := float_to_int (fadd (x b) (dx b)),
       iy := float_to_int (fadd (y b) (fadd (dy b) (fl32 (5 / 100))))\<rparr>, g)"
  using assms by (simp add: move_def bounce_walls_def bounce_ground_def Let_def)

lemma scenario_move:
  "move scenario_surface scenario_ball g =
     (\<lparr>x = 53, y = 13906739 / 262144, dx = 3, dy = 12792627 / 4194304,
       ix = 53, iy = 53, ox = 50, oy = 50, radius = 10, color = 0x001F\<rparr>, g)"
  unfolding scenario_ball_def
  by (subst move_airborne) (simp_all add: scenario_surface_def float_eval)


section \<open>A body that passes the ground bound\<close>

text \<open>
  The first fifteen ticks of the body that the constructor makes from
  \<open>overshoot_source\<close>, each evaluated with the rounding function. In none of them does
  the wall test or the ground test of \<^verbatim>\<open>move()\<close> fire.
\<close>

lemma overshoot_step_1:
  "move landscape
    \<lparr>x = 100, y = 162, dx = 2, dy = 9227469 / 2097152, ix = 0, iy = 0, ox = 7, oy = 0,
      radius = 6, color = 0\<rparr> g
   = (\<lparr>x = 102, y = 10908467 / 65536, dx = 2, dy = 9332327 / 2097152, ix = 102, iy = 166, ox = 0, oy = 0,
      radius = 6, color = 0\<rparr>, g)"
  by (subst move_airborne) (simp_all add: landscape_def float_eval)

lemma overshoot_step_2:
  "move landscape
    \<lparr>x = 102, y = 10908467 / 65536, dx = 2, dy = 9332327 / 2097152, ix = 102, iy = 166, ox = 0, oy = 0,
      radius = 6, color = 0\<rparr> g
   = (\<lparr>x = 104, y = 11203379 / 65536, dx = 2, dy = 9437185 / 2097152, ix = 104, iy = 170, ox = 102, oy = 166,
      radius = 6, color = 0\<rparr>, g)"
  by (subst move_airborne) (simp_all add: landscape_def float_eval)

lemma overshoot_step_3:
  "move landscape
    \<lparr>x = 104, y = 11203379 / 65536, dx = 2, dy = 9437185 / 2097152, ix = 104, iy = 170, ox = 102, oy = 166,
      radius = 6, color = 0\<rparr> g
   = (\<lparr>x = 106, y = 351 / 2, dx = 2, dy = 9542043 / 2097152, ix = 106, iy = 175, ox = 104, oy = 170,
      radius = 6, color = 0\<rparr>, g)"
  by (subst move_airborne) (simp_all add: landscape_def float_eval)

lemma overshoot_step_4:
  "move landscape
    \<lparr>x = 106, y = 351 / 2, dx = 2, dy = 9542043 / 2097152, ix = 106, iy = 175, ox = 104, oy = 170,
      radius = 6, color = 0\<rparr> g
   = (\<lparr>x = 108, y = 5901517 / 32768, dx = 2, dy = 9646901 / 2097152, ix = 108, iy = 180, ox = 106, oy = 175,
      radius = 6, color = 0\<rparr>, g)"
  by (subst move_airborne) (simp_all add: landscape_def float_eval)

lemma overshoot_step_5:
  "move landscape
    \<lparr>x = 108, y = 5901517 / 32768, dx = 2, dy = 9646901 / 2097152, ix = 108, iy = 180, ox = 106, oy = 175,
      radius = 6, color = 0\<rparr> g
   = (\<lparr>x = 110, y = 739 / 4, dx = 2, dy = 9751759 / 2097152, ix = 110, iy = 184, ox = 108, oy = 180,
      radius = 6, color = 0\<rparr>, g)"
  by (subst move_airborne) (simp_all add: landscape_def float_eval)

lemma overshoot_step_6:
  "move landscape
    \<lparr>x = 110, y = 739 / 4, dx = 2, dy = 9751759 / 2097152, ix = 110, iy = 184, ox = 108, oy = 180,
      radius = 6, color = 0\<rparr> g
   = (\<lparr>x = 112, y = 12415795 / 65536, dx = 2, dy = 9856617 / 2097152, ix = 112, iy = 189, ox = 110, oy = 184,
      radius = 6, color = 0\<rparr>, g)"
  by (subst move_airborne) (simp_all add: landscape_def float_eval)

lemma overshoot_step_7:
  "move landscape
    \<lparr>x = 112, y = 12415795 / 65536, dx = 2, dy = 9856617 / 2097152, ix = 112, iy = 189, ox = 110, oy = 184,
      radius = 6, color = 0\<rparr> g
   = (\<lparr>x = 114, y = 12727091 / 65536, dx = 2, dy = 9961475 / 2097152, ix = 114, iy = 194, ox = 112, oy = 189,
      radius = 6, color = 0\<rparr>, g)"
  by (subst move_airborne) (simp_all add: landscape_def float_eval)

lemma overshoot_step_8:
  "move landscape
    \<lparr>x = 114, y = 12727091 / 65536, dx = 2, dy = 9961475 / 2097152, ix = 114, iy = 194, ox = 112, oy = 189,
      radius = 6, color = 0\<rparr> g
   = (\<lparr>x = 116, y = 199, dx = 2, dy = 10066333 / 2097152, ix = 116, iy = 199, ox = 114, oy = 194,
      radius = 6, color = 0\<rparr>, g)"
  by (subst move_airborne) (simp_all add: landscape_def float_eval)

lemma overshoot_step_9:
  "move landscape
    \<lparr>x = 116, y = 199, dx = 2, dy = 10066333 / 2097152, ix = 116, iy = 199, ox = 114, oy = 194,
      radius = 6, color = 0\<rparr> g
   = (\<lparr>x = 118, y = 6679757 / 32768, dx = 2, dy = 10171191 / 2097152, ix = 118, iy = 203, ox = 116, oy = 199,
      radius = 6, color = 0\<rparr>, g)"
  by (subst move_airborne) (simp_all add: landscape_def float_eval)

lemma overshoot_step_10:
  "move landscape
    \<lparr>x = 118, y = 6679757 / 32768, dx = 2, dy = 10171191 / 2097152, ix = 118, iy = 203, ox = 116, oy = 199,
      radius = 6, color = 0\<rparr> g
   = (\<lparr>x = 120, y = 13680641 / 65536, dx = 2, dy = 10276049 / 2097152, ix = 120, iy = 208, ox = 118, oy = 203,
      radius = 6, color = 0\<rparr>, g)"
  by (subst move_airborne) (simp_all add: landscape_def float_eval)

lemma overshoot_step_11:
  "move landscape
    \<lparr>x = 120, y = 13680641 / 65536, dx = 2, dy = 10276049 / 2097152, ix = 120, iy = 208, ox = 118, oy = 203,
      radius = 6, color = 0\<rparr> g
   = (\<lparr>x = 122, y = 3501261 / 16384, dx = 2, dy = 10380907 / 2097152, ix = 122, iy = 213, ox = 120, oy = 208,
      radius = 6, color = 0\<rparr>, g)"
  by (subst move_airborne) (simp_all add: landscape_def float_eval)

lemma overshoot_step_12:
  "move landscape
    \<lparr>x = 122, y = 3501261 / 16384, dx = 2, dy = 10380907 / 2097152, ix = 122, iy = 213, ox = 120, oy = 208,
      radius = 6, color = 0\<rparr> g
   = (\<lparr>x = 124, y = 3583181 / 16384, dx = 2, dy = 10485765 / 2097152, ix = 124, iy = 218, ox = 122, oy = 213,
      radius = 6, color = 0\<rparr>, g)"
  by (subst move_airborne) (simp_all add: landscape_def float_eval)

lemma overshoot_step_13:
  "move landscape
    \<lparr>x = 124, y = 3583181 / 16384, dx = 2, dy = 10485765 / 2097152, ix = 124, iy = 218, ox = 122, oy = 213,
      radius = 6, color = 0\<rparr> g
   = (\<lparr>x = 126, y = 14663681 / 65536, dx = 2, dy = 10590623 / 2097152, ix = 126, iy = 223, ox = 124, oy = 218,
      radius = 6, color = 0\<rparr>, g)"
  by (subst move_airborne) (simp_all add: landscape_def float_eval)

lemma overshoot_step_14:
  "move landscape
    \<lparr>x = 126, y = 14663681 / 65536, dx = 2, dy = 10590623 / 2097152, ix = 126, iy = 223, ox = 124, oy = 218,
      radius = 6, color = 0\<rparr> g
   = (\<lparr>x = 128, y = 14997915 / 65536, dx = 2, dy = 10695481 / 2097152, ix = 128, iy = 228, ox = 126, oy = 223,
      radius = 6, color = 0\<rparr>, g)"
  by (subst move_airborne) (simp_all add: landscape_def float_eval)

lemma overshoot_step_15:
  "move landscape
    \<lparr>x = 128, y = 14997915 / 65536, dx = 2, dy = 10695481 / 2097152, ix = 128, iy = 228, ox = 126, oy = 223,
      radius = 6, color = 0\<rparr> g
   = (\<lparr>x = 130, y = 7667713 / 32768, dx = 2, dy = 10800339 / 2097152, ix = 130, iy = 234, ox = 128, oy = 228,
      radius = 6, color = 0\<rparr>, g)"
  by (subst move_airborne) (simp_all add: landscape_def float_eval)

lemma overshoot_start_value:
  "fst overshoot_start = \<lparr>x = 100, y = 162, dx = 2, dy = 9227469 / 2097152, ix = 0, iy = 0, ox = 7, oy = 0,
      radius = 6, color = 0\<rparr>"
  apply (simp add: overshoot_start_def Ball_ctor_def random_minmax_def overshoot_source_def
      landscape_def fresh_memory_def BLACK_def WHITE_def split_beta Let_def)
  apply (simp add: float_eval)
  done

lemma overshoot_before_value:
  "fst overshoot_before = \<lparr>x = 128, y = 14997915 / 65536, dx = 2, dy = 10695481 / 2097152, ix = 128, iy = 228, ox = 126, oy = 223,
      radius = 6, color = 0\<rparr>"
  unfolding overshoot_before_def overshoot_start_value
  by (simp add: eval_nat_numeral overshoot_step_1 overshoot_step_2 overshoot_step_3
      overshoot_step_4 overshoot_step_5 overshoot_step_6 overshoot_step_7 overshoot_step_8
      overshoot_step_9 overshoot_step_10 overshoot_step_11 overshoot_step_12 overshoot_step_13
      overshoot_step_14)


section \<open>A first tick on uninitialised cells\<close>





section \<open>The claims\<close>

text \<open>
  C1. The claim: right after construction the previous cell \<open>(ox, oy)\<close> equals the current
  cell \<open>(ix, iy)\<close>, so that an \<^verbatim>\<open>erase()\<close> before any \<^verbatim>\<open>move()\<close> fills nothing. The
  constructor assigns neither cell: both keep what the allocated memory held. On the
  memory block \<open>fresh_memory\<close> (\<open>ix = 0\<close>, \<open>ox = 7\<close>) the constructed body has
  different cells, and \<^verbatim>\<open>erase()\<close> clears a 7 by 12 rectangle.
\<close>

theorem Ball_ctor_leaves_cells_unset:
  "ix (fst (Ball_ctor landscape fresh_memory zero_source)) = ix fresh_memory
   \<and> ox (fst (Ball_ctor landscape fresh_memory zero_source)) = ox fresh_memory
   \<and> ox (fst (Ball_ctor landscape fresh_memory zero_source))
       \<noteq> ix (fst (Ball_ctor landscape fresh_memory zero_source))
   \<and> erase (fst (Ball_ctor landscape fresh_memory zero_source))
       = [fillRect 6 (- 6) 7 12 BACKGROUND]"
  by (simp add: Ball_ctor_def random_minmax_def zero_source_def fresh_memory_def erase_def
      machine_eval split_beta Let_def)

text \<open>
  C2 (as amended). For a body whose cell moved by \<open>(mx, my)\<close>, both non-zero and neither
  larger than the side \<open>2 * radius\<close> of the box, and whose old and new boxes have 16-bit
  coordinates: \<^verbatim>\<open>erase()\<close> clears exactly two rectangles; the first is the part of the
  old box outside the columns of the new box, the second the part outside its rows, so
  they overlap in the corner of \<open>\<bar>mx\<bar>\<close> by \<open>\<bar>my\<bar>\<close> pixels; their union is the old box
  minus the new box; \<^verbatim>\<open>draw()\<close> covers exactly the new box; together they touch exactly
  the union of the old and the new box.
\<close>

theorem erase_draw_partition:
  assumes "ix b \<noteq> ox b" and "iy b \<noteq> oy b"
    and "\<bar>ix b - ox b\<bar> \<le> 2 * radius b" and "\<bar>iy b - oy b\<bar> \<le> 2 * radius b"
    and o_box: "box_in_range (ox b) (oy b) (radius b)"
    and i_box: "box_in_range (ix b) (iy b) (radius b)"
  shows "length (erase b) = 2
       \<and> covers (erase b ! 0) p = (old_box b p \<and> \<not> box (ix b) (oy b) (radius b) p)
       \<and> covers (erase b ! 1) p = (old_box b p \<and> \<not> box (ox b) (iy b) (radius b) p)
       \<and> touched (erase b) p = (old_box b p \<and> \<not> new_box b p)
       \<and> touched (draw b) p = new_box b p
       \<and> touched (erase b @ draw b) p = (old_box b p \<or> new_box b p)"
proof -
  obtain u v where p: "p = (u, v)" by (cases p)
  have mx: "\<bar>ix b - ox b\<bar> \<le> 32767" and my: "\<bar>iy b - oy b\<bar> \<le> 32767"
    using assms(3,4) o_box i_box unfolding box_in_range_def by linarith+
  note e = erase_in_range[OF o_box i_box mx my] and d = draw_in_range[OF i_box]
  consider "ox b < ix b" "oy b < iy b" | "ox b < ix b" "iy b < oy b"
    | "ix b < ox b" "oy b < iy b" | "ix b < ox b" "iy b < oy b"
    using assms(1,2) by linarith
  then show ?thesis
  proof cases
    case 1
    then show ?thesis using assms(3,4) unfolding p e d
      by (auto simp: touched_def covers_def old_box_def new_box_def box_def)
  next
    case 2
    then show ?thesis using assms(3,4) unfolding p e d
      by (auto simp: touched_def covers_def old_box_def new_box_def box_def)
  next
    case 3
    then show ?thesis using assms(3,4) unfolding p e d
      by (auto simp: touched_def covers_def old_box_def new_box_def box_def)
  next
    case 4
    then show ?thesis using assms(3,4) unfolding p e d
      by (auto simp: touched_def covers_def old_box_def new_box_def box_def)
  qed
qed

theorem erase_draw_partition_witness:
  "ix scenario_moved \<noteq> ox scenario_moved \<and> iy scenario_moved \<noteq> oy scenario_moved
   \<and> \<bar>ix scenario_moved - ox scenario_moved\<bar> \<le> 2 * radius scenario_moved
   \<and> \<bar>iy scenario_moved - oy scenario_moved\<bar> \<le> 2 * radius scenario_moved
   \<and> box_in_range (ox scenario_moved) (oy scenario_moved) (radius scenario_moved)
   \<and> box_in_range (ix scenario_moved) (iy scenario_moved) (radius scenario_moved)
   \<and> length (erase scenario_moved) = 2
   \<and> touched (erase scenario_moved) (41, 50)
   \<and> old_box scenario_moved (41, 50) \<and> \<not> new_box scenario_moved (41, 50)
   \<and> touched (erase scenario_moved @ draw scenario_moved) (62, 62)"
  using erase_draw_partition [of scenario_moved "(41, 50)"]
    erase_draw_partition [of scenario_moved "(62, 62)"]
  by (simp add: scenario_moved_def scenario_ball_def old_box_def new_box_def box_def
      box_in_range_def)

text \<open>
  The claim as stated fails: in the scenario step from (50, 50) to (53, 53) the pixel
  (40, 40) is cleared by both rectangles, which are therefore not disjoint; and after a
  movement of 30 with radius 10 the pixel (65, 50), outside the old box, is cleared.
  Where the old box passes the 16-bit range (old cell 32761, radius 10) the strip is
  placed at the wrapped coordinate - 32768, and the pixel (32768, 50), in the old box and
  not in the new one, is not cleared.
\<close>

theorem erase_rectangles_overlap:
  "covers (erase scenario_moved ! 0) (40, 40) \<and> covers (erase scenario_moved ! 1) (40, 40)
   \<and> touched (erase far_moved) (65, 50) \<and> \<not> old_box far_moved (65, 50)
   \<and> old_box edge_moved (32768, 50) \<and> \<not> new_box edge_moved (32768, 50)
   \<and> \<not> touched (erase edge_moved) (32768, 50)"
  by (simp add: erase_def machine_eval touched_def covers_def old_box_def new_box_def box_def
      scenario_moved_def far_moved_def edge_moved_def scenario_ball_def)

text \<open>
  C3 (as amended). On the 240 by 320 surface the body of radius 10 at (50, 50) with speed
  (3, 3) is moved to position (53, 53.05), its cell to (53, 53), the previous cell being
  (50, 50). \<^verbatim>\<open>erase()\<close> then clears the strip 3 wide and 20 tall at the trailing edge,
  \<open>x\<close> in [40, 43) and \<open>y\<close> in [40, 60), and the strip 20 wide and 3 tall with \<open>x\<close> in
  [40, 60) and \<open>y\<close> in [40, 43); \<^verbatim>\<open>draw()\<close> fills the 20 by 20 box from (43, 43),
  centred at (53, 53).
\<close>

theorem scenario_tick:
  "fst (move scenario_surface scenario_ball g) =
     \<lparr>x = 53, y = 13906739 / 262144, dx = 3, dy = 12792627 / 4194304,
      ix = 53, iy = 53, ox = 50, oy = 50, radius = 10, color = 0x001F\<rparr>
   \<and> erase (fst (move scenario_surface scenario_ball g)) =
       [fillRect 40 40 3 20 BACKGROUND, fillRect 40 40 20 3 BACKGROUND]
   \<and> draw (fst (move scenario_surface scenario_ball g)) = [fillRect 43 43 20 20 0x001F]"
  unfolding scenario_move by (simp add: erase_def draw_def machine_eval)

text \<open>
  The claim as stated places the first strip at \<open>x\<close> in [60, 63). No pixel there is
  cleared: these columns belong to the new box, and the strip is at \<open>x\<close> in [40, 43).
\<close>

theorem scenario_strip_not_at_60:
  "\<not> touched (erase (fst (move scenario_surface scenario_ball zero_source))) (60, 50)
   \<and> \<not> touched (erase (fst (move scenario_surface scenario_ball zero_source))) (61, 50)
   \<and> \<not> touched (erase (fst (move scenario_surface scenario_ball zero_source))) (62, 50)
   \<and> touched (draw (fst (move scenario_surface scenario_ball zero_source))) (60, 50)
   \<and> touched (erase (fst (move scenario_surface scenario_ball zero_source))) (40, 50)"
  unfolding scenario_move by (simp add: erase_def draw_def machine_eval touched_def covers_def)

text \<open>
  C4. On a surface at least 11 pixels wider than the box, a body whose \<open>x\<close> lies in
  \<open>[radius, width - radius]\<close> and whose horizontal speed has a magnitude from 2 to 5
  (the bounce range is 2.0 to 4.4) still has its \<open>x\<close> in \<open>[radius, width - radius]\<close>
  after \<^verbatim>\<open>move()\<close>, and its speed is in that range again.
\<close>

theorem move_keeps_x_inside:
  assumes r0: "0 \<le> radius b"
    and wide: "2 * radius b + 11 \<le> width tft"
    and small: "width tft < 16777216"
    and lo: "of_int (radius b) \<le> x b"
    and hi: "x b \<le> of_int (width tft - radius b)"
    and sp: "2 \<le> \<bar>dx b\<bar>" "\<bar>dx b\<bar> \<le> 5"
  shows "of_int (radius b) \<le> x (fst (move tft b g))
       \<and> x (fst (move tft b g)) \<le> of_int (width tft - radius b)
       \<and> 2 \<le> \<bar>dx (fst (move tft b g))\<bar> \<and> \<bar>dx (fst (move tft b g))\<bar> \<le> 5"
proof -
  define r where "r = radius b"
  define n where "n = width tft - radius b"
  define s where "s = fadd (x b) (dx b)"
  define d where "d = dx (fst (move tft b g))"
  have rn: "0 \<le> r" "r + 11 \<le> n" "n < 16777216"
    using r0 wide small unfolding r_def n_def by linarith+
  have er: "float_of_int (radius b) = of_int r"
    unfolding r_def[symmetric] using rn by (intro float_of_int_exact) linarith
  have en: "float_of_int (width tft - radius b) = of_int n"
    unfolding n_def[symmetric] using rn by (intro float_of_int_exact) linarith
  have xr: "of_int r \<le> x b" "x b \<le> of_int n" using lo hi unfolding r_def n_def .
  have rn': "(0::real) \<le> of_int r" "of_int r + 11 \<le> (of_int n :: real)"
    using rn by linarith+
  define m where "m = fdiv (float_of_int (fst (random_minmax 20 45 g))) 10"
  have mb: "2 \<le> m \<and> m \<le> 5"
    unfolding m_def using random_minmax_range[of 20 45 g] by (intro wall_speed) simp_all
  have fm: "2 \<le> fl32 m \<and> fl32 m \<le> 5" using mb fl32_keeps_range by blast
  have dcases: "d = (if s \<le> of_int r \<or> of_int n \<le> s
                    then fmul m (if 0 < dx b then - 1 else 1) else dx b)"
    unfolding d_def move_dx s_def m_def er en ..
  have xnew: "x (fst (move tft b g)) = fl32 (x b + d)"
    unfolding d_def move_x fadd_def ..
  have le_int: "fl32 v \<le> of_int k" if "v \<le> of_int k" "- 16777216 < k" "k < 16777216" for v k
    using that by (intro fl32_le_int) linarith+
  have ge_int: "of_int k \<le> fl32 v" if "of_int k \<le> v" "- 16777216 < k" "k < 16777216" for v k
    using that by (intro fl32_ge_int) linarith+
  have goal: "of_int r \<le> fl32 (x b + d) \<and> fl32 (x b + d) \<le> of_int n \<and> 2 \<le> \<bar>d\<bar> \<and> \<bar>d\<bar> \<le> 5"
  proof (cases "s \<le> of_int r \<or> of_int n \<le> s")
    case False
    then have dd: "d = dx b" using dcases by simp
    have "fl32 (x b + d) = s" unfolding dd s_def fadd_def ..
    then show ?thesis using False sp dd by simp
  next
    case bounce: True
    show ?thesis
    proof (cases "0 < dx b")
      case True
      then have dd: "d = - fl32 m"
        using dcases bounce fl32_minus[of m] by (simp add: fmul_def)
      have up: "of_int (r + 2) \<le> x b + dx b" using xr sp True by simp
      have "of_int (r + 2) \<le> s" unfolding s_def fadd_def using up rn by (intro ge_int) linarith+
      then have "\<not> s \<le> of_int r" by simp
      then have ns: "of_int n \<le> s" using bounce by simp
      have big: "of_int (n - 1) < x b + dx b"
      proof (rule ccontr)
        assume "\<not> of_int (n - 1) < x b + dx b"
        then have "x b + dx b \<le> of_int (n - 1)" by simp
        then have "s \<le> of_int (n - 1)" unfolding s_def fadd_def using rn by (intro le_int) linarith+
        then show False using ns by simp
      qed
      have a: "of_int r \<le> x b + d" using big rn' sp True fm unfolding dd by simp
      have c: "x b + d \<le> of_int n" using xr fm unfolding dd by simp
      have "of_int r \<le> fl32 (x b + d)" using a rn by (intro ge_int) linarith+
      moreover have "fl32 (x b + d) \<le> of_int n" using c rn by (intro le_int) linarith+
      ultimately show ?thesis using fm unfolding dd by simp
    next
      case False
      then have neg: "dx b \<le> - 2" using sp by linarith
      have dd: "d = fl32 m" using dcases bounce False by (simp add: fmul_def)
      have dn: "x b + dx b \<le> of_int (n - 2)" using xr neg by simp
      have "s \<le> of_int (n - 2)" unfolding s_def fadd_def using dn rn by (intro le_int) linarith+
      then have "\<not> of_int n \<le> s" by simp
      then have sr: "s \<le> of_int r" using bounce by simp
      have low: "x b + dx b < of_int (r + 1)"
      proof (rule ccontr)
        assume "\<not> x b + dx b < of_int (r + 1)"
        then have "of_int (r + 1) \<le> x b + dx b" by simp
        then have "of_int (r + 1) \<le> s" unfolding s_def fadd_def using rn by (intro ge_int) linarith+
        then show False using sr by simp
      qed
      have a: "of_int r \<le> x b + d" using xr fm unfolding dd by simp
      have c: "x b + d \<le> of_int n" using low rn' sp neg fm unfolding dd by simp
      have "of_int r \<le> fl32 (x b + d)" using a rn by (intro ge_int) linarith+
      moreover have "fl32 (x b + d) \<le> of_int n" using c rn by (intro le_int) linarith+
      ultimately show ?thesis using fm unfolding dd by simp
    qed
  qed
  show ?thesis using goal unfolding xnew d_def[symmetric] r_def n_def by simp
qed

theorem move_keeps_x_inside_witness:
  "0 \<le> radius at_right_wall
   \<and> 2 * radius at_right_wall + 11 \<le> width scenario_surface
   \<and> width scenario_surface < 16777216
   \<and> of_int (radius at_right_wall) \<le> x at_right_wall
   \<and> x at_right_wall \<le> of_int (width scenario_surface - radius at_right_wall)
   \<and> 2 \<le> \<bar>dx at_right_wall\<bar> \<and> \<bar>dx at_right_wall\<bar> \<le> 5
   \<and> of_int (radius at_right_wall) \<le> x (fst (move scenario_surface at_right_wall zero_source))
   \<and> x (fst (move scenario_surface at_right_wall zero_source))
       \<le> of_int (width scenario_surface - radius at_right_wall)"
proof -
  have h: "0 \<le> radius at_right_wall"
    "2 * radius at_right_wall + 11 \<le> width scenario_surface"
    "width scenario_surface < 16777216"
    "of_int (radius at_right_wall) \<le> x at_right_wall"
    "x at_right_wall \<le> of_int (width scenario_surface - radius at_right_wall)"
    "2 \<le> \<bar>dx at_right_wall\<bar>" "\<bar>dx at_right_wall\<bar> \<le> 5"
    by (simp_all add: at_right_wall_def scenario_ball_def scenario_surface_def)
  from move_keeps_x_inside [OF h, of zero_source] h show ?thesis by blast
qed

text \<open>
  C5 (as amended). If \<open>y\<close> is at most \<open>height - radius\<close> before \<^verbatim>\<open>move()\<close>, and the
  vertical speed is at most 1024 in magnitude, then after \<^verbatim>\<open>move()\<close> \<open>y\<close> is at most
  \<open>height - radius + 1/16\<close> and the cell \<open>iy\<close> is at most \<open>height - radius\<close>. The position
  itself can pass the ground bound by a fraction of a pixel: the ground test reads the
  speed before gravity is added to it. There is no bound above.
\<close>

theorem move_ground_bound:
  assumes n0: "0 \<le> height tft - radius b"
    and small: "height tft - radius b \<le> 32767"
    and below: "y b \<le> of_int (height tft - radius b)"
    and speed: "\<bar>dy b\<bar> \<le> 1024"
  shows "y (fst (move tft b g)) \<le> of_int (height tft - radius b) + 1 / 16
       \<and> iy (fst (move tft b g)) \<le> height tft - radius b"
proof -
  define n where "n = height tft - radius b"
  define d where "d = dy (fst (move tft b g))"
  define k where "k = fst (random_minmax (-45) (-20)
                   (snd (bounce_walls tft (b\<lparr>ox := ix b, oy := iy b\<rparr>) g)))"
  have nb: "0 \<le> n" "n \<le> 32767" using n0 small unfolding n_def .
  have en: "float_of_int (height tft - radius b) = of_int n"
    unfolding n_def[symmetric] using nb by (intro float_of_int_exact) linarith
  have yb: "y b \<le> of_int n" using below unfolding n_def .
  have dcases: "d = (if of_int n \<le> fl32 (y b + dy b)
                    then fdiv (float_of_int k) 10 else fl32 (dy b + fl32 (5 / 100)))"
    unfolding d_def move_dy k_def en fadd_def ..
  have ynew: "y (fst (move tft b g)) = fl32 (y b + d)"
    unfolding d_def move_y fadd_def ..
  have sum: "y b + d \<le> of_int n + 1 / 16"
  proof (cases "of_int n \<le> fl32 (y b + dy b)")
    case True
    have "-45 \<le> k \<and> k < -20" unfolding k_def by (intro random_minmax_range) simp
    then have "fdiv (float_of_int k) 10 \<le> - 2" using ground_speed[of k] by simp
    then have "d \<le> - 2" using dcases True by simp
    then show ?thesis using yb by linarith
  next
    case False
    have lt: "y b + dy b < of_int n"
    proof (rule ccontr)
      assume "\<not> y b + dy b < of_int n"
      then have "of_int n \<le> y b + dy b" by simp
      then have "of_int n \<le> fl32 (y b + dy b)" using nb by (intro fl32_ge_int) linarith+
      then show False using False by simp
    qed
    have dd: "d = fl32 (dy b + 13421773 / 268435456)"
      using dcases False unfolding gravity_value by simp
    have "\<bar>dy b + 13421773 / 268435456\<bar> < 2048" using speed by linarith
    then have "\<bar>fl32 (dy b + 13421773 / 268435456) - (dy b + 13421773 / 268435456)\<bar> \<le> 1 / 16384"
      by (rule fl32_error_small)
    then have "d \<le> dy b + 13421773 / 268435456 + 1 / 16384" unfolding dd by linarith
    then show ?thesis using lt by linarith
  qed
  have "fl32 (y b + d) \<le> fl32 (of_int n + 1 / 16)" using sum by (rule fl32_mono)
  then have ybound: "fl32 (y b + d) \<le> of_int n + 1 / 16"
    using fl32_sixteenth[OF nb] by simp
  have cell: "float_to_int (fl32 (y b + d)) \<le> n"
  proof (cases "0 \<le> fl32 (y b + d)")
    case True
    have "fl32 (y b + d) < of_int n + 1" using ybound by linarith
    then have f: "\<lfloor>fl32 (y b + d)\<rfloor> \<le> n" by (simp only: floor_le_iff)
    have "float_to_int (fl32 (y b + d)) = \<lfloor>fl32 (y b + d)\<rfloor>"
      using True by (simp add: float_to_int_def)
    then show ?thesis using f by linarith
  next
    case False
    then have "fl32 (y b + d) \<le> of_int 0" by simp
    then have c: "\<lceil>fl32 (y b + d)\<rceil> \<le> 0" by (simp only: ceiling_le_iff)
    have "float_to_int (fl32 (y b + d)) = \<lceil>fl32 (y b + d)\<rceil>"
      using False by (simp add: float_to_int_def)
    then show ?thesis using c nb by linarith
  qed
  show ?thesis
    using ybound cell unfolding move_cells ynew n_def by simp
qed

theorem move_ground_bound_witness:
  "0 \<le> height scenario_surface - radius scenario_ball
   \<and> height scenario_surface - radius scenario_ball \<le> 32767
   \<and> y scenario_ball \<le> of_int (height scenario_surface - radius scenario_ball)
   \<and> \<bar>dy scenario_ball\<bar> \<le> 1024
   \<and> y (fst (move scenario_surface scenario_ball zero_source))
       \<le> of_int (height scenario_surface - radius scenario_ball) + 1 / 16
   \<and> iy (fst (move scenario_surface scenario_ball zero_source))
       \<le> height scenario_surface - radius scenario_ball"
proof -
  have h: "0 \<le> height scenario_surface - radius scenario_ball"
    "height scenario_surface - radius scenario_ball \<le> 32767"
    "y scenario_ball \<le> of_int (height scenario_surface - radius scenario_ball)"
    "\<bar>dy scenario_ball\<bar> \<le> 1024"
    by (simp_all add: scenario_ball_def scenario_surface_def)
  from move_ground_bound [OF h, of zero_source] h show ?thesis by blast
qed

text \<open>
  The claim as stated fails on a body the sketch can construct: with radius 6 on the
  320 by 240 surface, starting at \<open>y = 162\<close> with vertical speed 4.4, the body is below
  the ground bound 234 after 14 ticks and above it after the 15th.
\<close>

theorem ground_bound_overshoot:
  "y (fst overshoot_before) \<le> of_int (height landscape - radius (fst overshoot_before))
   \<and> of_int (height landscape - radius (fst overshoot_before))
       < y (fst (move landscape (fst overshoot_before) (snd overshoot_before)))"
  unfolding overshoot_before_value overshoot_step_15
  by (simp add: landscape_def)

text \<open>
  C6. When \<open>dx\<close> is positive and \<^verbatim>\<open>x + dx\<close> reaches the right bound, \<^verbatim>\<open>move()\<close> leaves
  \<open>dx\<close> strictly negative: it is the value newly drawn from 2.0 to 4.4, negated, whatever
  the magnitude of \<open>dx\<close> was. When \<open>dx\<close> is negative and \<^verbatim>\<open>x + dx\<close> reaches the left
  bound, \<open>dx\<close> becomes the newly drawn value, strictly positive.
\<close>

theorem bounce_reverses_dx:
  "(0 < dx b \<and> float_of_int (width tft - radius b) \<le> fadd (x b) (dx b)
      \<longrightarrow> dx (fst (move tft b g)) = fmul (fdiv (float_of_int (fst (random_minmax 20 45 g))) 10) (- 1)
          \<and> - 5 \<le> dx (fst (move tft b g)) \<and> dx (fst (move tft b g)) \<le> - 2)
   \<and> (dx b < 0 \<and> fadd (x b) (dx b) \<le> float_of_int (radius b)
      \<longrightarrow> dx (fst (move tft b g)) = fmul (fdiv (float_of_int (fst (random_minmax 20 45 g))) 10) 1
          \<and> 2 \<le> dx (fst (move tft b g)) \<and> dx (fst (move tft b g)) \<le> 5)"
proof -
  define m where "m = fdiv (float_of_int (fst (random_minmax 20 45 g))) 10"
  have mb: "2 \<le> m \<and> m \<le> 5"
    unfolding m_def using random_minmax_range[of 20 45 g] by (intro wall_speed) simp_all
  have pos: "2 \<le> fmul m 1 \<and> fmul m 1 \<le> 5"
    unfolding fmul_def using fl32_keeps_range[of m] mb by simp
  have "fmul m (- 1) = - fl32 m" unfolding fmul_def using fl32_minus[of m] by simp
  then have neg: "- 5 \<le> fmul m (- 1) \<and> fmul m (- 1) \<le> - 2"
    using fl32_keeps_range[of m] mb by linarith
  show ?thesis
  proof (intro conjI impI)
    assume a: "0 < dx b \<and> float_of_int (width tft - radius b) \<le> fadd (x b) (dx b)"
    then have d: "dx (fst (move tft b g)) = fmul m (- 1)"
      unfolding move_dx m_def by simp
    show "dx (fst (move tft b g)) = fmul (fdiv (float_of_int (fst (random_minmax 20 45 g))) 10) (- 1)"
      using d unfolding m_def .
    show "- 5 \<le> dx (fst (move tft b g))" "dx (fst (move tft b g)) \<le> - 2"
      using d neg by simp_all
  next
    assume a: "dx b < 0 \<and> fadd (x b) (dx b) \<le> float_of_int (radius b)"
    then have d: "dx (fst (move tft b g)) = fmul m 1"
      unfolding move_dx m_def by simp
    show "dx (fst (move tft b g)) = fmul (fdiv (float_of_int (fst (random_minmax 20 45 g))) 10) 1"
      using d unfolding m_def .
    show "2 \<le> dx (fst (move tft b g))" "dx (fst (move tft b g)) \<le> 5"
      using d pos by simp_all
  qed
qed

theorem bounce_reverses_dx_witness:
  "0 < dx at_right_wall
   \<and> float_of_int (width scenario_surface - radius at_right_wall)
       \<le> fadd (x at_right_wall) (dx at_right_wall)
   \<and> dx (fst (move scenario_surface at_right_wall zero_source)) \<le> - 2
   \<and> dx at_left_wall < 0
   \<and> fadd (x at_left_wall) (dx at_left_wall) \<le> float_of_int (radius at_left_wall)
   \<and> 2 \<le> dx (fst (move scenario_surface at_left_wall zero_source))"
proof -
  have r: "0 < dx at_right_wall
      \<and> float_of_int (width scenario_surface - radius at_right_wall)
          \<le> fadd (x at_right_wall) (dx at_right_wall)"
    by (simp add: at_right_wall_def scenario_ball_def scenario_surface_def float_eval)
  have l: "dx at_left_wall < 0
      \<and> fadd (x at_left_wall) (dx at_left_wall) \<le> float_of_int (radius at_left_wall)"
    by (simp add: at_left_wall_def scenario_ball_def scenario_surface_def float_eval)
  from bounce_reverses_dx [of at_right_wall scenario_surface zero_source]
    bounce_reverses_dx [of at_left_wall scenario_surface zero_source] r l
  show ?thesis by blast
qed

text \<open>
  C7. When \<^verbatim>\<open>loop()\<close> has run a tick at time \<open>t1\<close> and is called again at a time \<open>t2\<close>
  at most 5 ms later, the second call changes nothing in the state of the sketch (no
  field of a body, not \<^verbatim>\<open>lastms\<close>) and issues no drawing call.
\<close>

theorem loop_rate_gating:
  assumes "\<not> t1 - lastms s \<le> 5" and "t2 - t1 \<le> 5"
  shows "loop tft t2 (fst (loop tft t1 s)) = (fst (loop tft t1 s), [])"
  using assms by (intro loop_gated) (simp add: loop_lastms)

theorem loop_rate_gating_witness:
  "\<not> (10 :: 32 word) - lastms scenario_sketch \<le> 5
   \<and> (13 :: 32 word) - 10 \<le> 5
   \<and> loop scenario_surface 13 (fst (loop scenario_surface 10 scenario_sketch))
     = (fst (loop scenario_surface 10 scenario_sketch), [])"
  using loop_rate_gating [of 10 scenario_sketch 13 scenario_surface]
  by (simp add: scenario_sketch_def)

text \<open>
  C8. A tick that is executed calls \<^verbatim>\<open>move()\<close> on every body, in the order of the array:
  the body at index \<open>i\<close> after the tick is the result of \<^verbatim>\<open>move()\<close> on the body at index
  \<open>i\<close> before it, with the random source as the \<^verbatim>\<open>move()\<close> calls on the bodies before it
  left it. Then the tick issues the \<^verbatim>\<open>erase()\<close> calls of every body, in the same order, all
  of them on the state after the move pass; then the \<^verbatim>\<open>draw()\<close> calls of every body, in
  that order again. No erase call follows a draw call.
\<close>

theorem loop_three_passes:
  assumes "\<not> ms - lastms s \<le> 5"
  shows "length (balls (fst (loop tft ms s))) = length (balls s)
       \<and> (\<forall>i < length (balls s).
            balls (fst (loop tft ms s)) ! i
              = fst (move tft (balls s ! i)
                      (foldl (\<lambda>g b. snd (move tft b g)) (seed s) (take i (balls s)))))
       \<and> seed (fst (loop tft ms s)) = foldl (\<lambda>g b. snd (move tft b g)) (seed s) (balls s)
       \<and> snd (loop tft ms s) =
           concat (map erase (balls (fst (loop tft ms s))))
           @ concat (map draw (balls (fst (loop tft ms s))))"
  using assms
  by (simp add: loop_def split_beta Let_def erase_all_concat draw_all_concat move_all_length
      move_all_nth move_all_seed)

theorem loop_three_passes_witness:
  "\<not> (10 :: 32 word) - lastms two_ball_sketch \<le> 5
   \<and> length (balls (fst (loop scenario_surface 10 two_ball_sketch))) = 2
   \<and> balls (fst (loop scenario_surface 10 two_ball_sketch)) ! 0
       = fst (move scenario_surface scenario_ball zero_source)
   \<and> balls (fst (loop scenario_surface 10 two_ball_sketch)) ! 1
       = fst (move scenario_surface at_left_wall zero_source)
   \<and> snd (loop scenario_surface 10 two_ball_sketch) =
       erase (fst (move scenario_surface scenario_ball zero_source))
       @ erase (fst (move scenario_surface at_left_wall zero_source))
       @ draw (fst (move scenario_surface scenario_ball zero_source))
       @ draw (fst (move scenario_surface at_left_wall zero_source))"
proof -
  have h: "\<not> (10 :: 32 word) - lastms two_ball_sketch \<le> 5"
    by (simp add: two_ball_sketch_def)
  have l: "length (balls two_ball_sketch) = 2" by (simp add: two_ball_sketch_def)
  note t = loop_three_passes [OF h, of scenario_surface, unfolded l]
  from t have n: "length (balls (fst (loop scenario_surface 10 two_ball_sketch))) = 2"
    by (rule conjunct1)
  from t have "balls (fst (loop scenario_surface 10 two_ball_sketch)) ! 0
      = fst (move scenario_surface (balls two_ball_sketch ! 0)
          (foldl (\<lambda>g b. snd (move scenario_surface b g)) (seed two_ball_sketch)
             (take 0 (balls two_ball_sketch))))"
    by simp
  then have b0: "balls (fst (loop scenario_surface 10 two_ball_sketch)) ! 0
      = fst (move scenario_surface scenario_ball zero_source)"
    by (simp add: two_ball_sketch_def)
  from t have "balls (fst (loop scenario_surface 10 two_ball_sketch)) ! 1
      = fst (move scenario_surface (balls two_ball_sketch ! 1)
          (foldl (\<lambda>g b. snd (move scenario_surface b g)) (seed two_ball_sketch)
             (take 1 (balls two_ball_sketch))))"
    by simp
  then have b1: "balls (fst (loop scenario_surface 10 two_ball_sketch)) ! 1
      = fst (move scenario_surface at_left_wall zero_source)"
    by (simp add: two_ball_sketch_def scenario_move)
  have bs: "balls (fst (loop scenario_surface 10 two_ball_sketch))
      = [fst (move scenario_surface scenario_ball zero_source),
         fst (move scenario_surface at_left_wall zero_source)]"
    using n b0 b1 by (simp add: list_eq_iff_nth_eq less_Suc_eq numeral_2_eq_2)
  from t have "snd (loop scenario_surface 10 two_ball_sketch) =
           concat (map erase (balls (fst (loop scenario_surface 10 two_ball_sketch))))
           @ concat (map draw (balls (fst (loop scenario_surface 10 two_ball_sketch))))"
    by simp
  then show ?thesis using h n b0 b1 unfolding bs by simp
qed






end
